theory Spec2Isabelle
  imports Main
begin

section \<open>Text: JavaScript strings as lists of UTF-16 code units\<close>

text \<open>
  A JavaScript string is a sequence of 16-bit code units; \<open>length\<close>, \<open>slice\<close>,
  \<open>split\<close> and the regular expressions of \<^verbatim>\<open>main.ts\<close> (none has the \<^verbatim>\<open>u\<close> flag) all
  work on code units. A code unit is modelled by its number.
\<close>

type_synonym jsstring = "nat list"

definition js :: "string \<Rightarrow> jsstring" where
  "js s = map of_char s"

text \<open>
  The characters that \<^verbatim>\<open>String.prototype.trim\<close>, \<^verbatim>\<open>trimEnd\<close> and the class \<^verbatim>\<open>\s\<close> treat as
  white space (ECMAScript WhiteSpace and LineTerminator): TAB, LF, VT, FF, CR, SP, NBSP,
  U+1680, U+2000..U+200A, U+2028, U+2029, U+202F, U+205F, U+3000, U+FEFF.
\<close>

definition isWhitespace :: "nat \<Rightarrow> bool" where
  "isWhitespace c \<longleftrightarrow>
     (9 \<le> c \<and> c \<le> 13) \<or> c = 32 \<or> c = 160 \<or> c = 5760 \<or> (8192 \<le> c \<and> c \<le> 8202) \<or>
     c = 8232 \<or> c = 8233 \<or> c = 8239 \<or> c = 8287 \<or> c = 12288 \<or> c = 65279"

definition trimStart :: "jsstring \<Rightarrow> jsstring" where
  "trimStart s = dropWhile isWhitespace s"

definition trimEnd :: "jsstring \<Rightarrow> jsstring" where
  "trimEnd s = rev (dropWhile isWhitespace (rev s))"

definition trim :: "jsstring \<Rightarrow> jsstring" where
  "trim s = trimEnd (trimStart s)"

text \<open>
  \<^verbatim>\<open>String.prototype.split\<close> with a separator that never matches the empty string. The
  separator is given by a matcher: \<open>m s\<close> is the length of the separator match that starts
  at the head of \<open>s\<close>, or \<open>0\<close> when there is none. The scan goes left to right; \<open>cur\<close> holds
  (reversed) the characters since the end of the last separator. The empty string gives
  one empty piece.
\<close>

function jsSplit :: "(jsstring \<Rightarrow> nat) \<Rightarrow> jsstring \<Rightarrow> jsstring \<Rightarrow> jsstring list" where
  "jsSplit m cur [] = [rev cur]"
| "jsSplit m cur (c # cs) =
     (if m (c # cs) = 0 then jsSplit m (c # cur) cs
      else rev cur # jsSplit m [] (drop (m (c # cs)) (c # cs)))"
  by pat_completeness auto
termination
  by (relation "measure (\<lambda>(m, cur, s). length s)") auto

text \<open>The three separators of \<^verbatim>\<open>main.ts\<close>: \<^verbatim>\<open>/\s+/\<close>, the string \<^verbatim>\<open>"\n"\<close> and \<^verbatim>\<open>/\n\n+/\<close>.\<close>

definition matchWhitespaceRun :: "jsstring \<Rightarrow> nat" where
  "matchWhitespaceRun s = length (takeWhile isWhitespace s)"

definition matchNewline :: "jsstring \<Rightarrow> nat" where
  "matchNewline s = (case s of [] \<Rightarrow> 0 | c # _ \<Rightarrow> if c = 10 then 1 else 0)"

definition matchBlankLines :: "jsstring \<Rightarrow> nat" where
  "matchBlankLines s =
     (let n = length (takeWhile (\<lambda>c. c = 10) s) in if 2 \<le> n then n else 0)"

text \<open>\<^verbatim>\<open>Array.prototype.join\<close>.\<close>

fun jsJoin :: "jsstring \<Rightarrow> jsstring list \<Rightarrow> jsstring" where
  "jsJoin sep [] = []"
| "jsJoin sep [x] = x"
| "jsJoin sep (x # y # ys) = x @ sep @ jsJoin sep (y # ys)"

section \<open>Word counter\<close>

text \<open>
  \<^verbatim>\<open>countWords(text) = text.trim().split(/\s+/).filter((word) => word.length > 0).length\<close>
\<close>

definition countWords :: "jsstring \<Rightarrow> nat" where
  "countWords text =
     length (filter (\<lambda>word. length word > 0) (jsSplit matchWhitespaceRun [] (trim text)))"

section \<open>Penalty engine\<close>

datatype PenaltyType = PenaltyAll | PenaltyParagraph | PenaltySentence

definition isTerminator :: "nat \<Rightarrow> bool" where
  "isTerminator c \<longleftrightarrow> c = 46 \<or> c = 33 \<or> c = 63"

text \<open>
  \<^verbatim>\<open>result.match(/[.!?][^.!?]*$/)\<close>: the search tries the start positions from the left;
  at a position the pattern matches when the character there is one of \<^verbatim>\<open>.!?\<close> and the
  greedy run of other characters after it reaches the end of the string. The result is
  the matched text.
\<close>

fun lastSentenceMatch :: "jsstring \<Rightarrow> jsstring option" where
  "lastSentenceMatch [] = None"
| "lastSentenceMatch (c # cs) =
     (if isTerminator c \<and> dropWhile (\<lambda>x. \<not> isTerminator x) cs = [] then Some (c # cs)
      else lastSentenceMatch cs)"

text \<open>
  \<^verbatim>\<open>applyPenalty\<close>; the penalty type is read from the settings and the \<^verbatim>\<open>editor\<close> argument
  is not used by the source.
\<close>

definition applyPenalty :: "PenaltyType \<Rightarrow> jsstring \<Rightarrow> jsstring" where
  "applyPenalty mode content =
     (case mode of
        PenaltyAll \<Rightarrow> []
      | PenaltySentence \<Rightarrow>
          (let result = trimEnd content in
           case lastSentenceMatch result of
             Some mt \<Rightarrow> take (length result - length mt) result
           | None \<Rightarrow>
               (let lines = jsSplit matchNewline [] result in
                if length lines > 1 then jsJoin [10] (butlast lines) else []))
      | PenaltyParagraph \<Rightarrow>
          (let paragraphs = jsSplit matchBlankLines [] content in
           if length paragraphs > 1 then jsJoin [10, 10] (butlast paragraphs) else []))"

section \<open>Plugin state and host\<close>

text \<open>
  \<^verbatim>\<open>SessionRecord\<close> (\<^verbatim>\<open>stats.ts\<close>) and \<^verbatim>\<open>SessionConfig\<close> (\<^verbatim>\<open>modal.ts\<close>). JavaScript numbers
  that hold times, counts and goals are integers here; \<^verbatim>\<open>null\<close> is \<open>None\<close>.
\<close>

record SessionRecord =
  timestamp :: int
  durationSeconds :: int
  wordsWritten :: int
  completed :: bool

record SessionConfig =
  cfg_durationMinutes :: "int option"
  cfg_wordCountGoal :: "int option"

text \<open>
  A markdown view shows a file (a \<^verbatim>\<open>TFile\<close>, identified by its path, or \<^verbatim>\<open>null\<close>) through an
  editor; editors are addresses into the store \<open>editors\<close> of the state. A workspace leaf
  holds a markdown view or a view of another type.
\<close>

datatype MarkdownView = MarkdownView (view_file: "string option") (view_editor: nat)

datatype View = Markdown MarkdownView | OtherView

text \<open>
  The pending timers of \<^verbatim>\<open>window\<close>, each with what its callback closes over: the goal
  check of \<^verbatim>\<open>beginSession\<close> keeps the editor it was started with, the warning check of
  \<^verbatim>\<open>startWarningInterval\<close> keeps \<^verbatim>\<open>warningThreshold\<close> (milliseconds).
\<close>

datatype timer = GoalCheck nat | IdleTimeout | WarningCheck int

text \<open>
  The fields of \<^verbatim>\<open>DangerousWritingPlugin\<close> that the session logic reads or writes, the
  settings it reads, and the part of the host it acts on: the pending timers, the active
  markdown view (\<^verbatim>\<open>getActiveViewOfType(MarkdownView)\<close>) and the editor contents. The
  warning overlay is \<open>None\<close> when there is no overlay element and \<open>Some b\<close> when there is
  one, \<open>b\<close> telling whether a warning colour is set on it. Notices, the status bar text
  and the persistence of the history are display and storage, and are left out.
\<close>

record Plugin =
  idleTimeoutSeconds :: int
  warningThresholdSeconds :: int
  penaltyType :: PenaltyType
  practiceMode :: bool
  sessions :: "SessionRecord list"
  sessionActive :: bool
  sessionStartTime :: int
  sessionDurationMs :: int
  wordCountGoal :: "int option"
  initialWordCount :: int
  activeFile :: "string option"
  initialContent :: jsstring
  sessionInterval :: "nat option"
  idleWatchdogTimeout :: "nat option"
  lastActivityTime :: int
  warningOverlay :: "bool option"
  statusBarInterval :: "nat option"
  timers :: "(nat \<times> timer) list"
  nextTimerId :: nat
  activeView :: "MarkdownView option"
  editors :: "nat \<Rightarrow> jsstring"

text \<open>\<^verbatim>\<open>window.setInterval\<close> / \<^verbatim>\<open>window.setTimeout\<close> and \<^verbatim>\<open>clearInterval\<close> / \<^verbatim>\<open>clearTimeout\<close>.\<close>

definition setTimer :: "timer \<Rightarrow> Plugin \<Rightarrow> nat \<times> Plugin" where
  "setTimer k s =
     (nextTimerId s,
      s\<lparr>timers := timers s @ [(nextTimerId s, k)], nextTimerId := nextTimerId s + 1\<rparr>)"

definition clearTimer :: "nat \<Rightarrow> Plugin \<Rightarrow> Plugin" where
  "clearTimer i s = s\<lparr>timers := filter (\<lambda>(j, k). j \<noteq> i) (timers s)\<rparr>"

text \<open>\<^verbatim>\<open>editor.setValue\<close>.\<close>

definition setValue :: "nat \<Rightarrow> jsstring \<Rightarrow> Plugin \<Rightarrow> Plugin" where
  "setValue ed text s = s\<lparr>editors := (editors s)(ed := text)\<rparr>"

section \<open>Session operations\<close>

text \<open>Every operation that reads \<^verbatim>\<open>Date.now()\<close> takes the time as \<open>now\<close>.\<close>

definition recordSession :: "int \<Rightarrow> int \<Rightarrow> int \<Rightarrow> bool \<Rightarrow> Plugin \<Rightarrow> Plugin" where
  "recordSession now words secs done s =
     s\<lparr>sessions := sessions s @
        [\<lparr>timestamp = now, durationSeconds = secs, wordsWritten = words, completed = done\<rparr>]\<rparr>"

definition createWarningOverlay :: "Plugin \<Rightarrow> Plugin" where
  "createWarningOverlay s =
     (if warningOverlay s \<noteq> None then s else s\<lparr>warningOverlay := Some False\<rparr>)"

definition removeWarningOverlay :: "Plugin \<Rightarrow> Plugin" where
  "removeWarningOverlay s = s\<lparr>warningOverlay := None\<rparr>"

text \<open>\<^verbatim>\<open>stopSession(completed)\<close>; the source never reads its argument.\<close>

definition stopSession :: "bool \<Rightarrow> Plugin \<Rightarrow> Plugin" where
  "stopSession done s =
     (if \<not> sessionActive s then s
      else
        let s1 = s\<lparr>sessionActive := False\<rparr>;
            s2 = (case sessionInterval s1 of None \<Rightarrow> s1
                  | Some i \<Rightarrow> (clearTimer i s1)\<lparr>sessionInterval := None\<rparr>);
            s3 = (case idleWatchdogTimeout s2 of None \<Rightarrow> s2
                  | Some i \<Rightarrow> (clearTimer i s2)\<lparr>idleWatchdogTimeout := None\<rparr>);
            s4 = (case statusBarInterval s3 of None \<Rightarrow> s3
                  | Some i \<Rightarrow> (clearTimer i s3)\<lparr>statusBarInterval := None\<rparr>);
            s5 = removeWarningOverlay s4
        in s5\<lparr>activeFile := None, initialContent := [], initialWordCount := 0,
              wordCountGoal := None, lastActivityTime := 0\<rparr>)"

text \<open>
  \<^verbatim>\<open>startWarningInterval\<close> starts a 50 ms interval whose handle is kept only in the
  callback's own closure; \<open>warningCheck\<close> is that callback, \<open>i\<close> its handle and \<open>thr\<close> the
  threshold it captured. The opacity it sets is a floating-point value and is not
  modelled: the overlay only records that a colour is set.
\<close>

definition startWarningInterval :: "Plugin \<Rightarrow> Plugin" where
  "startWarningInterval s = snd (setTimer (WarningCheck (warningThresholdSeconds s * 1000)) s)"

definition warningCheck :: "nat \<Rightarrow> int \<Rightarrow> int \<Rightarrow> Plugin \<Rightarrow> Plugin" where
  "warningCheck i thr now s =
     (if \<not> sessionActive s then clearTimer i s
      else
        let idleTime = now - lastActivityTime s;
            remaining = idleTimeoutSeconds s * 1000 - idleTime
        in if remaining \<le> 0 then
             (let s1 = clearTimer i s in
              case warningOverlay s1 of None \<Rightarrow> s1 | Some b \<Rightarrow> s1\<lparr>warningOverlay := Some False\<rparr>)
           else if remaining \<le> thr \<and> warningOverlay s \<noteq> None then s\<lparr>warningOverlay := Some True\<rparr>
           else if remaining > thr \<and> warningOverlay s \<noteq> None then s\<lparr>warningOverlay := Some False\<rparr>
           else s)"

definition resetIdleWatchdog :: "int \<Rightarrow> Plugin \<Rightarrow> Plugin" where
  "resetIdleWatchdog now s =
     (let s1 = (case idleWatchdogTimeout s of None \<Rightarrow> s
                | Some i \<Rightarrow> (clearTimer i s)\<lparr>idleWatchdogTimeout := None\<rparr>);
          s2 = s1\<lparr>lastActivityTime := now\<rparr>;
          s3 = (case warningOverlay s2 of None \<Rightarrow> s2 | Some b \<Rightarrow> s2\<lparr>warningOverlay := Some False\<rparr>);
          (i, s4) = setTimer IdleTimeout s3;
          s5 = s4\<lparr>idleWatchdogTimeout := Some i\<rparr>
      in startWarningInterval s5)"

definition completeSession :: "int \<Rightarrow> Plugin \<Rightarrow> Plugin" where
  "completeSession now s =
     (if \<not> sessionActive s then s
      else case activeView s of
        None \<Rightarrow> stopSession False s
      | Some view \<Rightarrow>
          if view_file view \<noteq> activeFile s then stopSession False s
          else
            let words = int (countWords (editors s (view_editor view)));
                secs = (now - sessionStartTime s) div 1000
            in stopSession True (recordSession now words secs True s))"

text \<open>
  \<^verbatim>\<open>triggerPenalty\<close>; \<open>recover\<close> is the user's answer to the \<^verbatim>\<open>confirm\<close> dialog of practice
  mode.
\<close>

definition triggerPenalty :: "int \<Rightarrow> bool \<Rightarrow> Plugin \<Rightarrow> Plugin" where
  "triggerPenalty now recover s =
     (if \<not> sessionActive s then s
      else case activeView s of
        None \<Rightarrow> s
      | Some view \<Rightarrow>
          if view_file view \<noteq> activeFile s then s
          else
            let currentContent = editors s (view_editor view);
                words = int (countWords currentContent);
                secs = (now - sessionStartTime s) div 1000;
                savedInitialContent = initialContent s;
                practice = practiceMode s;
                newContent = applyPenalty (penaltyType s) currentContent;
                s1 = setValue (view_editor view) newContent s;
                s2 = recordSession now words secs False s1;
                s3 = stopSession False s2
            in if practice \<and> recover then setValue (view_editor view) savedInitialContent s3 else s3)"

text \<open>The callback of the 1-second interval of \<^verbatim>\<open>beginSession\<close>, for the editor \<open>ed\<close> it captured.\<close>

definition goalCheck :: "nat \<Rightarrow> int \<Rightarrow> Plugin \<Rightarrow> Plugin" where
  "goalCheck ed now s =
     (case wordCountGoal s of
        Some goal \<Rightarrow>
          (let currentWords = int (countWords (editors s ed)) in
           if currentWords - initialWordCount s \<ge> goal then completeSession now s else s)
      | None \<Rightarrow>
          (let elapsed = now - sessionStartTime s in
           if elapsed \<ge> sessionDurationMs s then completeSession now s else s))"

text \<open>
  \<^verbatim>\<open>beginSession(file, editor, config)\<close>. \<^verbatim>\<open>config.durationMinutes || 5\<close> is 5 for \<^verbatim>\<open>null\<close>
  and for 0.
\<close>

definition beginSession :: "int \<Rightarrow> string \<Rightarrow> nat \<Rightarrow> SessionConfig \<Rightarrow> Plugin \<Rightarrow> Plugin" where
  "beginSession now f ed config s =
     (let s1 = s\<lparr>sessionActive := True, activeFile := Some f, initialContent := editors s ed,
                 initialWordCount := int (countWords (editors s ed)), sessionStartTime := now\<rparr>;
          s2 = (case cfg_wordCountGoal config of
                  Some goal \<Rightarrow> s1\<lparr>wordCountGoal := Some goal, sessionDurationMs := 0\<rparr>
                | None \<Rightarrow>
                    s1\<lparr>wordCountGoal := None,
                       sessionDurationMs :=
                         (case cfg_durationMinutes config of None \<Rightarrow> 5
                          | Some d \<Rightarrow> if d = 0 then 5 else d) * 60 * 1000\<rparr>);
          (i, s3) = setTimer (GoalCheck ed) s2;
          s4 = s3\<lparr>sessionInterval := Some i\<rparr>;
          s5 = resetIdleWatchdog now s4
      in createWarningOverlay s5)"

text \<open>The handler of \<^verbatim>\<open>active-leaf-change\<close> registered in \<^verbatim>\<open>onload\<close>.\<close>

definition onActiveLeafChange :: "View option \<Rightarrow> Plugin \<Rightarrow> Plugin" where
  "onActiveLeafChange leaf s =
     (if sessionActive s then
        (case leaf of
           Some (Markdown view) \<Rightarrow>
             (case (activeFile s, view_file view) of
                (Some af, Some cf) \<Rightarrow> if cf \<noteq> af then stopSession False s else s
              | _ \<Rightarrow> s)
         | _ \<Rightarrow> s)
      else s)"

text \<open>The handler of \<^verbatim>\<open>editor-change\<close>.\<close>

definition onEditorChange :: "int \<Rightarrow> Plugin \<Rightarrow> Plugin" where
  "onEditorChange now s = (if sessionActive s then resetIdleWatchdog now s else s)"

text \<open>The command \<^verbatim>\<open>stop-dangerous-writing\<close> (\<^verbatim>\<open>checking = false\<close>).\<close>

definition stopCommand :: "Plugin \<Rightarrow> Plugin" where
  "stopCommand s = (if sessionActive s then stopSession True s else s)"

text \<open>\<^verbatim>\<open>onunload\<close>: stops an active session, then \<^verbatim>\<open>cleanup\<close> removes the overlay.\<close>

definition onunload :: "Plugin \<Rightarrow> Plugin" where
  "onunload s = removeWarningOverlay (if sessionActive s then stopSession False s else s)"

section \<open>Events\<close>

text \<open>
  What can happen while the plugin is loaded, apart from starting a session: an edit in
  some editor (the host stores the new text, then the \<^verbatim>\<open>editor-change\<close> handler runs), a
  change of the active leaf (the host makes the leaf's view the active one, then the
  \<^verbatim>\<open>active-leaf-change\<close> handler runs), a change of the active markdown view that
  raises no leaf event, a pending timer firing, the stop command, and unloading. A
  timeout is removed from the pending timers when it fires; an interval stays.
\<close>

datatype event =
    EditorChange nat jsstring int
  | ActiveLeafChange "View option"
  | ViewChange "MarkdownView option"
  | TimerFires nat int bool
  | StopCommand
  | Unload

definition fireTimer :: "nat \<Rightarrow> int \<Rightarrow> bool \<Rightarrow> Plugin \<Rightarrow> Plugin" where
  "fireTimer i now recover s =
     (case map_of (timers s) i of
        None \<Rightarrow> s
      | Some (GoalCheck ed) \<Rightarrow> goalCheck ed now s
      | Some IdleTimeout \<Rightarrow> triggerPenalty now recover (clearTimer i s)
      | Some (WarningCheck thr) \<Rightarrow> warningCheck i thr now s)"

definition step :: "event \<Rightarrow> Plugin \<Rightarrow> Plugin" where
  "step e s =
     (case e of
        EditorChange ed text now \<Rightarrow> onEditorChange now (setValue ed text s)
      | ActiveLeafChange leaf \<Rightarrow>
          onActiveLeafChange leaf
            (s\<lparr>activeView := (case leaf of Some (Markdown view) \<Rightarrow> Some view | _ \<Rightarrow> None)\<rparr>)
      | ViewChange view \<Rightarrow> s\<lparr>activeView := view\<rparr>
      | TimerFires i now recover \<Rightarrow> fireTimer i now recover s
      | StopCommand \<Rightarrow> stopCommand s
      | Unload \<Rightarrow> onunload s)"

text \<open>The goal check firing again and again: each tick has its editor and its time.\<close>

fun goalChecks :: "(nat \<times> int) list \<Rightarrow> Plugin \<Rightarrow> Plugin" where
  "goalChecks [] s = s"
| "goalChecks ((ed, now) # ticks) s = goalChecks ticks (goalCheck ed now s)"

text \<open>
  The plugin as constructed (the field initialisers of the class) with the settings of
  \<^verbatim>\<open>DEFAULT_SETTINGS\<close>, no stored history, no timer pending, no markdown view active and
  every editor empty.
\<close>

definition initialPlugin :: Plugin where
  "initialPlugin =
     \<lparr>idleTimeoutSeconds = 5, warningThresholdSeconds = 3, penaltyType = PenaltyAll,
      practiceMode = True, sessions = [], sessionActive = False, sessionStartTime = 0,
      sessionDurationMs = 0, wordCountGoal = None, initialWordCount = 0, activeFile = None,
      initialContent = [], sessionInterval = None, idleWatchdogTimeout = None,
      lastActivityTime = 0, warningOverlay = None, statusBarInterval = None, timers = [],
      nextTimerId = 0, activeView = None, editors = (\<lambda>ed. [])\<rparr>"

text \<open>
  A running example: the note \<^verbatim>\<open>a.md\<close>, holding the two words \<^verbatim>\<open>a b\<close>, is open in editor 0
  and is the active view; at time 0 a session with a goal of one word begins on it.
\<close>

definition noteOpen :: Plugin where
  "noteOpen =
     setValue 0 (js ''a b'') (initialPlugin\<lparr>activeView := Some (MarkdownView (Some ''a.md'') 0)\<rparr>)"

definition wordSession :: Plugin where
  "wordSession =
     beginSession 0 ''a.md'' 0 \<lparr>cfg_durationMinutes = None, cfg_wordCountGoal = Some 1\<rparr> noteOpen"

section \<open>Maximal runs of non-white-space characters\<close>

text \<open>
  A maximal non-white-space run starts at every position that holds a non-white-space
  character and is either the first position or preceded by a white-space character;
  \<open>maximalRuns\<close> counts these positions. \<open>runs b s\<close> counts them by one pass over \<open>s\<close>, \<open>b\<close>
  telling whether the character before \<open>s\<close> was inside a run.
\<close>

definition startsRun :: "jsstring \<Rightarrow> nat \<Rightarrow> bool" where
  "startsRun s i \<longleftrightarrow> \<not> isWhitespace (s ! i) \<and> (i = 0 \<or> isWhitespace (s ! (i - 1)))"

definition maximalRuns :: "jsstring \<Rightarrow> nat" where
  "maximalRuns s = length (filter (startsRun s) [0..<length s])"

fun runs :: "bool \<Rightarrow> jsstring \<Rightarrow> nat" where
  "runs b [] = 0"
| "runs b (c # cs) =
     (if isWhitespace c then runs False cs else (if b then 0 else 1) + runs True cs)"

section \<open>The goal test\<close>

text \<open>The condition under which the goal check calls \<^verbatim>\<open>completeSession\<close>.\<close>

definition goalReached :: "nat \<Rightarrow> int \<Rightarrow> Plugin \<Rightarrow> bool" where
  "goalReached ed now s =
     (case wordCountGoal s of
        Some goal \<Rightarrow> int (countWords (editors s ed)) - initialWordCount s \<ge> goal
      | None \<Rightarrow> now - sessionStartTime s \<ge> sessionDurationMs s)"

section \<open>Properties of the word counter\<close>

lemma runs_dropWhile: "runs False (dropWhile isWhitespace s) = runs False s"
  by (induction s) auto

lemma runs_all_ws: "list_all isWhitespace w \<Longrightarrow> runs b w = 0"
  by (induction w arbitrary: b) auto

lemma runs_append_ws: "list_all isWhitespace w \<Longrightarrow> runs b (s @ w) = runs b s"
  by (induction s arbitrary: b) (auto simp: runs_all_ws)

lemma runs_prepend_ws: "list_all isWhitespace w \<Longrightarrow> runs False (w @ s) = runs False s"
  by (induction w) auto

lemma trimEnd_decomp: "trimEnd s @ rev (takeWhile isWhitespace (rev s)) = s"
proof -
  have "rev (takeWhile isWhitespace (rev s) @ dropWhile isWhitespace (rev s)) = s"
    by simp
  then show ?thesis unfolding trimEnd_def by (simp only: rev_append)
qed

lemma runs_trimEnd: "runs b (trimEnd s) = runs b s"
proof -
  have "list_all isWhitespace (rev (takeWhile isWhitespace (rev s)))"
    by (simp add: list_all_iff) (meson set_takeWhileD)
  from runs_append_ws[OF this, of b "trimEnd s"] show ?thesis
    by (simp add: trimEnd_decomp)
qed

lemma runs_trim: "runs False (trim s) = runs False s"
  by (simp add: trim_def trimStart_def runs_trimEnd runs_dropWhile)

lemma matchWhitespaceRun_0: "matchWhitespaceRun (c # cs) = 0 \<longleftrightarrow> \<not> isWhitespace c"
  by (simp add: matchWhitespaceRun_def)

lemma drop_matchWhitespaceRun: "drop (matchWhitespaceRun s) s = dropWhile isWhitespace s"
  by (simp add: matchWhitespaceRun_def dropWhile_eq_drop)

text \<open>
  The non-empty pieces of a split at white space: one for the piece in progress, if it
  has a character, and one for every run that starts later.
\<close>

lemma split_count:
  "length (filter (\<lambda>w. length w > 0) (jsSplit matchWhitespaceRun cur s)) =
     (if cur = [] then 0 else 1) + runs (cur \<noteq> []) s"
proof (induction matchWhitespaceRun cur s rule: jsSplit.induct)
  case (1 cur)
  then show ?case by simp
next
  case (2 cur c cs)
  show ?case
  proof (cases "isWhitespace c")
    case True
    then have m: "matchWhitespaceRun (c # cs) \<noteq> 0" by (simp add: matchWhitespaceRun_0)
    have "runs False (dropWhile isWhitespace (c # cs)) = runs False (c # cs)"
      by (rule runs_dropWhile)
    with 2(2)[OF m] m True show ?thesis
      by (simp add: drop_matchWhitespaceRun del: dropWhile.simps)
  next
    case False
    then have m: "matchWhitespaceRun (c # cs) = 0" by (simp add: matchWhitespaceRun_0)
    with 2(1)[OF m] False show ?thesis by simp
  qed
qed

lemma countWords_runs: "countWords t = runs False t"
  using split_count [of "[]" "trim t"] by (simp add: countWords_def runs_trim)

lemma runs_starts:
  "runs b s = length (filter (\<lambda>i. \<not> isWhitespace (s ! i) \<and>
      (if i = 0 then \<not> b else isWhitespace (s ! (i - 1)))) [0..<length s])"
proof (induction s arbitrary: b)
  case Nil
  then show ?case by simp
next
  case (Cons c cs)
  let ?P = "\<lambda>i. \<not> isWhitespace ((c # cs) ! i) \<and>
      (if i = 0 then \<not> b else isWhitespace ((c # cs) ! (i - 1)))"
  let ?Q = "\<lambda>i. \<not> isWhitespace (cs ! i) \<and>
      (if i = 0 then \<not> (\<not> isWhitespace c) else isWhitespace (cs ! (i - 1)))"
  have up: "[0..<length (c # cs)] = 0 # map Suc [0..<length cs]"
    by (simp add: upt_conv_Cons map_Suc_upt del: upt_Suc)
  have eq: "filter (?P \<circ> Suc) [0..<length cs] = filter ?Q [0..<length cs]"
    by (rule filter_cong) (auto simp: nth_Cons')
  have "length (filter ?P [0..<length (c # cs)]) =
        (if ?P 0 then 1 else 0) + length (filter ?Q [0..<length cs])"
    unfolding up by (simp add: filter_map eq del: upt_Suc)
  also have "length (filter ?Q [0..<length cs]) = runs (\<not> isWhitespace c) cs"
    by (simp add: Cons.IH)
  finally show ?case by auto
qed

lemma countWords_maximalRuns: "countWords t = maximalRuns t"
proof -
  have "filter (\<lambda>i. \<not> isWhitespace (t ! i) \<and>
      (if i = 0 then \<not> False else isWhitespace (t ! (i - 1)))) [0..<length t] =
      filter (startsRun t) [0..<length t]"
    by (rule filter_cong) (auto simp: startsRun_def)
  then show ?thesis
    by (simp only: countWords_runs runs_starts maximalRuns_def)
qed

lemma countWords_all_ws: "list_all isWhitespace t \<Longrightarrow> countWords t = 0"
  by (simp add: countWords_runs runs_all_ws)

lemma countWords_pad:
  assumes "list_all isWhitespace pre" and "list_all isWhitespace post"
  shows "countWords (pre @ t @ post) = countWords t"
  using assms by (simp add: countWords_runs runs_prepend_ws runs_append_ws)

lemmas text_defs = js_def countWords_def trim_def trimStart_def trimEnd_def isWhitespace_def
  matchWhitespaceRun_def

text \<open>
  Claim C8. For every text the word counter returns the number of maximal
  non-white-space runs; text that is empty or all white space gives 0, the empty string
  counts 0 words and \<^verbatim>\<open>"  a   b  "\<close> counts 2; and white space added before or after a text
  does not change its count.
\<close>

theorem countWords_counts_maximal_runs:
  "countWords t = maximalRuns t \<and>
   (list_all isWhitespace t \<longrightarrow> countWords t = 0) \<and>
   countWords [] = 0 \<and>
   countWords (js ''  a   b  '') = 2 \<and>
   (list_all isWhitespace pre \<and> list_all isWhitespace post \<longrightarrow>
      countWords (pre @ t @ post) = countWords t)"
proof -
  have "countWords [] = 0" and "countWords (js ''  a   b  '') = 2"
    by (simp_all add: text_defs)
  moreover have "countWords t = maximalRuns t"
    by (rule countWords_maximalRuns)
  ultimately show ?thesis
    using countWords_all_ws[of t] countWords_pad[of pre post t] by blast
qed

theorem countWords_counts_maximal_runs_witness:
  "list_all isWhitespace [32, 9, 10] \<and> countWords [32, 9, 10] = 0 \<and>
   list_all isWhitespace (js ''  '') \<and> list_all isWhitespace [10] \<and>
   countWords (js ''  '' @ js ''to be'' @ [10]) = countWords (js ''to be'') \<and>
   countWords (js ''to be'') = maximalRuns (js ''to be'')"
  using countWords_counts_maximal_runs [of "[32, 9, 10]" "[]" "[]"]
    countWords_counts_maximal_runs [of "js ''to be''" "js ''  ''" "[10]"]
  by (simp add: js_def isWhitespace_def)

section \<open>Properties of the penalty engine\<close>

lemma jsSplit_nonempty: "jsSplit m cur s \<noteq> []"
  by (induction m cur s rule: jsSplit.induct) auto

text \<open>
  When every separator match has at least \<open>k\<close> characters and lies inside the string,
  the pieces together with \<open>k\<close> characters for every separator fit into the input.
\<close>

lemma jsSplit_total:
  assumes sep: "\<And>u. m u \<noteq> 0 \<Longrightarrow> k \<le> m u \<and> m u \<le> length u"
  shows "sum_list (map length (jsSplit m cur s)) + k * (length (jsSplit m cur s) - 1)
           \<le> length cur + length s"
  using sep
proof (induction m cur s rule: jsSplit.induct)
  case (1 m cur)
  then show ?case by simp
next
  case (2 m cur c cs)
  show ?case
  proof (cases "m (c # cs) = 0")
    case True
    with "2.IH"(1) "2.prems" show ?thesis by simp
  next
    case False
    let ?rest = "jsSplit m [] (drop (m (c # cs)) (c # cs))"
    from "2.prems"[OF False] have k: "k \<le> m (c # cs)" and le: "m (c # cs) \<le> length (c # cs)"
      by auto
    have ih: "sum_list (map length ?rest) + k * (length ?rest - 1)
                \<le> length (c # cs) - m (c # cs)"
      using "2.IH"(2)[OF False "2.prems"] by simp
    have ne: "length ?rest \<ge> 1"
      using jsSplit_nonempty[of m "[]" "drop (m (c # cs)) (c # cs)"] by (cases ?rest) auto
    then have "k * (length ?rest - 1) + k = k * length ?rest"
      by (metis add.commute le_add_diff_inverse mult_Suc_right plus_1_eq_Suc)
    with ih k le have "sum_list (map length ?rest) + k * length ?rest \<le> length (c # cs)"
      by linarith
    with False show ?thesis by simp
  qed
qed

lemma jsJoin_length:
  "length (jsJoin sep xs) = sum_list (map length xs) + length sep * (length xs - 1)"
  by (induction sep xs rule: jsJoin.induct) auto

lemma sum_butlast_le: "sum_list (map length (butlast xs)) \<le> sum_list (map length xs)"
  by (induction xs) auto

lemma jsJoin_butlast_less:
  assumes "length xs > 1" "sep \<noteq> []"
  shows "length (jsJoin sep (butlast xs)) <
           sum_list (map length xs) + length sep * (length xs - 1)"
proof -
  from assms(1) obtain n where n: "length xs = Suc (Suc n)"
    by (metis One_nat_def Suc_lessE less_imp_Suc_add)
  from assms(2) obtain k where "length sep = Suc k" by (cases sep) auto
  then show ?thesis
    using sum_butlast_le[of xs] n by (simp add: jsJoin_length)
qed

lemma split_join_shorter:
  assumes sep: "\<And>u. m u \<noteq> 0 \<Longrightarrow> length sep \<le> m u \<and> m u \<le> length u"
    and "sep \<noteq> []" "length (jsSplit m [] s) > 1"
  shows "length (jsJoin sep (butlast (jsSplit m [] s))) < length s"
  using jsJoin_butlast_less[OF assms(3) assms(2)] jsSplit_total[of m "length sep" "[]" s, OF sep]
  by simp

lemma matchNewline_sep:
  "matchNewline u \<noteq> 0 \<Longrightarrow> length [10::nat] \<le> matchNewline u \<and> matchNewline u \<le> length u"
  by (cases u) (auto simp: matchNewline_def split: if_splits)

lemma matchBlankLines_sep:
  "matchBlankLines u \<noteq> 0 \<Longrightarrow>
     length [10::nat, 10] \<le> matchBlankLines u \<and> matchBlankLines u \<le> length u"
  by (auto simp: matchBlankLines_def Let_def length_takeWhile_le split: if_splits)

lemma trimEnd_length: "length (trimEnd s) \<le> length s"
  using length_dropWhile_le[of isWhitespace "rev s"] by (simp add: trimEnd_def)

lemma lastSentenceMatch_Some:
  "lastSentenceMatch s = Some mt \<Longrightarrow> mt \<noteq> [] \<and> length mt \<le> length s"
  by (induction s) (auto split: if_splits)

lemma applyPenalty_sentence_less:
  assumes "content \<noteq> []"
  shows "length (applyPenalty PenaltySentence content) < length content"
proof (cases "lastSentenceMatch (trimEnd content)")
  case None
  show ?thesis
  proof (cases "length (jsSplit matchNewline [] (trimEnd content)) > 1")
    case True
    have "length (jsJoin [10] (butlast (jsSplit matchNewline [] (trimEnd content))))
            < length (trimEnd content)"
      by (rule split_join_shorter[OF matchNewline_sep _ True]) simp_all
    with None True trimEnd_length[of content] show ?thesis
      by (simp add: applyPenalty_def)
  next
    case False
    with None assms show ?thesis by (simp add: applyPenalty_def)
  qed
next
  case (Some mt)
  from lastSentenceMatch_Some[OF Some]
  have "mt \<noteq> []" "length mt \<le> length (trimEnd content)" by auto
  then have "length (trimEnd content) - length mt < length (trimEnd content)"
    by (cases mt) auto
  with Some trimEnd_length[of content] show ?thesis
    by (simp add: applyPenalty_def Let_def)
qed

lemma applyPenalty_paragraph_less:
  assumes "content \<noteq> []"
  shows "length (applyPenalty PenaltyParagraph content) < length content"
proof (cases "length (jsSplit matchBlankLines [] content) > 1")
  case True
  have "length (jsJoin [10, 10] (butlast (jsSplit matchBlankLines [] content))) < length content"
    by (rule split_join_shorter[OF matchBlankLines_sep _ True]) simp_all
  with True show ?thesis by (simp add: applyPenalty_def)
next
  case False
  with assms show ?thesis by (simp add: applyPenalty_def)
qed

lemma applyPenalty_Nil: "applyPenalty mode [] = []"
  by (cases mode) (simp_all add: applyPenalty_def trimEnd_def)

text \<open>
  Claim C9. For every content and every penalty mode the result of \<^verbatim>\<open>applyPenalty\<close> is
  at most as long as the content, and strictly shorter when the content is not empty.
\<close>

theorem applyPenalty_shortens:
  "length (applyPenalty mode content) \<le> length content \<and>
   (content \<noteq> [] \<longrightarrow> length (applyPenalty mode content) < length content)"
proof (cases "content = []")
  case True
  then show ?thesis by (simp add: applyPenalty_Nil)
next
  case False
  have "length (applyPenalty mode content) < length content"
  proof (cases mode)
    case PenaltyAll
    with False show ?thesis by (simp add: applyPenalty_def)
  next
    case PenaltyParagraph
    with False show ?thesis by (simp add: applyPenalty_paragraph_less)
  next
    case PenaltySentence
    with False show ?thesis by (simp add: applyPenalty_sentence_less)
  qed
  then show ?thesis by simp
qed

theorem applyPenalty_shortens_witness:
  "js ''One. Two'' \<noteq> [] \<and>
   length (applyPenalty PenaltySentence (js ''One. Two'')) < length (js ''One. Two'')"
  using applyPenalty_shortens [of PenaltySentence "js ''One. Two''"] by (simp add: js_def)

text \<open>
  The pattern of the sentence mode matches at the last of the marks \<^verbatim>\<open>.!?\<close>, so the
  text kept is what stands before that mark.
\<close>

lemma lastSentenceMatch_last_mark:
  assumes "isTerminator c" and "\<forall>x \<in> set post. \<not> isTerminator x"
  shows "lastSentenceMatch (pre @ c # post) = Some (c # post)"
proof (induction pre)
  case Nil
  from assms(2) have "dropWhile (\<lambda>x. \<not> isTerminator x) post = []" by simp
  with assms(1) show ?case by simp
next
  case (Cons p pre)
  from assms(1) have "dropWhile (\<lambda>x. \<not> isTerminator x) (pre @ c # post) \<noteq> []"
    by simp
  with Cons show ?case by simp
qed

lemma applyPenalty_sentence_keeps_prefix:
  assumes "trimEnd content = pre @ c # post" and "isTerminator c"
    and "\<forall>x \<in> set post. \<not> isTerminator x"
  shows "applyPenalty PenaltySentence content = pre"
  using lastSentenceMatch_last_mark[OF assms(2,3), of pre] assms(1)
  by (simp add: applyPenalty_def Let_def)

text \<open>
  Claim C4. In the sentence mode, for a text whose trimmed form contains one of the
  marks \<^verbatim>\<open>.!?\<close>, the claim has \<^verbatim>\<open>applyPenalty\<close> remove the whole last sentence, so that
  \<^verbatim>\<open>"Hello. World."\<close> becomes \<^verbatim>\<open>"Hello."\<close>. The function as written cuts at the last mark:
  on \<^verbatim>\<open>"Hello. World."\<close> it removes the final full stop only and returns
  \<^verbatim>\<open>"Hello. World"\<close>.
\<close>

theorem applyPenalty_sentence_hello_world:
  "applyPenalty PenaltySentence (js ''Hello. World.'') = js ''Hello. World'' \<and>
   applyPenalty PenaltySentence (js ''Hello. World.'') \<noteq> js ''Hello.''"
  by (simp add: js_def applyPenalty_def trimEnd_def isWhitespace_def isTerminator_def)

section \<open>Properties of the session operations\<close>

lemmas example_defs = wordSession_def noteOpen_def initialPlugin_def beginSession_def
  setValue_def setTimer_def resetIdleWatchdog_def startWarningInterval_def
  createWarningOverlay_def clearTimer_def text_defs

lemmas run_defs = step_def fireTimer_def goalCheck_def completeSession_def triggerPenalty_def
  recordSession_def stopSession_def removeWarningOverlay_def onActiveLeafChange_def
  stopCommand_def onEditorChange_def applyPenalty_def Let_def

lemma stopSession_inactive: "\<not> sessionActive s \<Longrightarrow> stopSession c s = s"
  by (simp add: stopSession_def)

lemma stopSession_fields:
  "sessionActive s \<Longrightarrow>
     \<not> sessionActive (stopSession c s) \<and> sessions (stopSession c s) = sessions s \<and>
     editors (stopSession c s) = editors s \<and> sessionInterval (stopSession c s) = None \<and>
     idleWatchdogTimeout (stopSession c s) = None \<and> statusBarInterval (stopSession c s) = None"
  by (simp add: stopSession_def Let_def clearTimer_def removeWarningOverlay_def
      split: option.splits)

lemma stopSession_timers:
  "sessionActive s \<Longrightarrow>
     timers (stopSession c s) =
       filter (\<lambda>(j, k). Some j \<noteq> sessionInterval s \<and> Some j \<noteq> idleWatchdogTimeout s \<and>
                 Some j \<noteq> statusBarInterval s) (timers s)"
  by (auto simp: stopSession_def Let_def clearTimer_def removeWarningOverlay_def
      split: option.splits intro!: filter_cong)

lemma stopSession_duration: "sessionDurationMs (stopSession c s) = sessionDurationMs s"
  by (simp add: stopSession_def Let_def clearTimer_def removeWarningOverlay_def
      split: option.splits)

lemma stopSession_wordGoal:
  "sessionActive (stopSession c s) \<longrightarrow> wordCountGoal (stopSession c s) = wordCountGoal s"
  by (cases "sessionActive s") (simp_all add: stopSession_fields stopSession_inactive)

lemma completeSession_inactive: "\<not> sessionActive s \<Longrightarrow> completeSession now s = s"
  by (simp add: completeSession_def)

lemma completeSession_stops: "sessionActive s \<Longrightarrow> \<not> sessionActive (completeSession now s)"
  by (simp add: completeSession_def stopSession_fields recordSession_def Let_def
      split: option.splits)

lemma completeSession_duration:
  "sessionDurationMs (completeSession now s) = sessionDurationMs s"
  by (simp add: completeSession_def stopSession_duration recordSession_def Let_def
      split: option.splits)

lemma completeSession_sessions:
  "sessions (completeSession now s) =
     (if sessionActive s \<and> activeView s \<noteq> None \<and> view_file (the (activeView s)) = activeFile s
      then sessions s @
        [\<lparr>timestamp = now, durationSeconds = (now - sessionStartTime s) div 1000,
          wordsWritten = int (countWords (editors s (view_editor (the (activeView s))))),
          completed = True\<rparr>]
      else sessions s)"
  by (simp add: completeSession_def stopSession_fields recordSession_def Let_def
      split: option.splits)

lemma goalCheck_eq:
  "goalCheck ed now s = (if goalReached ed now s then completeSession now s else s)"
  by (simp add: goalCheck_def goalReached_def Let_def split: option.splits)

lemma goalCheck_inactive: "\<not> sessionActive s \<Longrightarrow> goalCheck ed now s = s"
  by (simp add: goalCheck_eq completeSession_inactive)

lemma goalCheck_active: "sessionActive (goalCheck ed now s) \<Longrightarrow> goalCheck ed now s = s"
  by (cases "sessionActive s")
    (auto simp: goalCheck_eq completeSession_inactive completeSession_stops split: if_splits)

lemma goalChecks_inactive: "\<not> sessionActive s \<Longrightarrow> goalChecks ticks s = s"
  by (induction ticks) (auto simp: goalCheck_inactive)

lemma goalCheck_sessions:
  "sessions (goalCheck ed now s) = sessions s \<or>
   (\<exists>r. sessions (goalCheck ed now s) = sessions s @ [r] \<and> completed r)"
  by (simp add: goalCheck_eq completeSession_sessions)

text \<open>However often the goal check fires, it adds at most one record, a completed one.\<close>

lemma goalChecks_sessions:
  "sessions (goalChecks ticks s) = sessions s \<or>
   (\<exists>r. sessions (goalChecks ticks s) = sessions s @ [r] \<and> completed r)"
proof (induction ticks arbitrary: s)
  case Nil
  then show ?case by simp
next
  case (Cons tick ticks)
  obtain ed now where tick: "tick = (ed, now)" by (cases tick)
  show ?case
  proof (cases "sessionActive (goalCheck ed now s)")
    case True
    then have "goalCheck ed now s = s" by (rule goalCheck_active)
    with Cons.IH[of s] tick show ?thesis by simp
  next
    case False
    then have "goalChecks ticks (goalCheck ed now s) = goalCheck ed now s"
      by (rule goalChecks_inactive)
    with goalCheck_sessions[of ed now s] tick show ?thesis by simp
  qed
qed

lemma resetIdleWatchdog_keeps:
  "sessionActive (resetIdleWatchdog now s) = sessionActive s \<and>
   wordCountGoal (resetIdleWatchdog now s) = wordCountGoal s \<and>
   sessionDurationMs (resetIdleWatchdog now s) = sessionDurationMs s"
  by (simp add: resetIdleWatchdog_def startWarningInterval_def setTimer_def clearTimer_def
      Let_def split: option.splits)

lemma warningCheck_keeps:
  "sessionActive (warningCheck i thr now s) = sessionActive s \<and>
   wordCountGoal (warningCheck i thr now s) = wordCountGoal s \<and>
   sessionDurationMs (warningCheck i thr now s) = sessionDurationMs s"
  by (simp add: warningCheck_def clearTimer_def Let_def split: option.splits)

lemma triggerPenalty_keeps:
  "(sessionActive (triggerPenalty now r s) \<longrightarrow>
      wordCountGoal (triggerPenalty now r s) = wordCountGoal s) \<and>
   sessionDurationMs (triggerPenalty now r s) = sessionDurationMs s"
  by (simp add: triggerPenalty_def Let_def setValue_def recordSession_def stopSession_fields
      stopSession_duration split: option.splits)

lemma goalCheck_keeps:
  "(sessionActive (goalCheck ed now s) \<longrightarrow> wordCountGoal (goalCheck ed now s) = wordCountGoal s) \<and>
   sessionDurationMs (goalCheck ed now s) = sessionDurationMs s"
  using goalCheck_active[of ed now s] by (auto simp: goalCheck_eq completeSession_duration)

lemma fireTimer_keeps:
  "(sessionActive (fireTimer i now r s) \<longrightarrow> wordCountGoal (fireTimer i now r s) = wordCountGoal s) \<and>
   sessionDurationMs (fireTimer i now r s) = sessionDurationMs s"
proof (cases "map_of (timers s) i")
  case None
  then show ?thesis by (simp add: fireTimer_def)
next
  case (Some k)
  show ?thesis
  proof (cases k)
    case (GoalCheck ed)
    with Some goalCheck_keeps[of ed now s] show ?thesis by (simp add: fireTimer_def)
  next
    case IdleTimeout
    with Some triggerPenalty_keeps[of now r "clearTimer i s"] show ?thesis
      by (simp add: fireTimer_def clearTimer_def)
  next
    case (WarningCheck thr)
    with Some warningCheck_keeps[of i thr now s] show ?thesis by (simp add: fireTimer_def)
  qed
qed

lemma onActiveLeafChange_keeps:
  "(sessionActive (onActiveLeafChange leaf s) \<longrightarrow>
      wordCountGoal (onActiveLeafChange leaf s) = wordCountGoal s) \<and>
   sessionDurationMs (onActiveLeafChange leaf s) = sessionDurationMs s"
  by (simp add: onActiveLeafChange_def stopSession_wordGoal stopSession_duration
      split: option.splits View.splits)

text \<open>
  No event changes the stored duration, and an event after which a session is active
  has left the word goal as it was.
\<close>

lemma step_keeps:
  "(sessionActive (step e s) \<longrightarrow> wordCountGoal (step e s) = wordCountGoal s) \<and>
   sessionDurationMs (step e s) = sessionDurationMs s"
proof (cases e)
  case (EditorChange ed content now)
  then show ?thesis
    by (simp add: step_def onEditorChange_def resetIdleWatchdog_keeps setValue_def)
next
  case (ActiveLeafChange leaf)
  then show ?thesis
    using onActiveLeafChange_keeps[of leaf
        "s\<lparr>activeView := (case leaf of Some (Markdown view) \<Rightarrow> Some view | _ \<Rightarrow> None)\<rparr>"]
    by (simp add: step_def)
next
  case (ViewChange view)
  then show ?thesis by (simp add: step_def)
next
  case (TimerFires i now r)
  then show ?thesis using fireTimer_keeps[of i now r s] by (simp add: step_def)
next
  case StopCommand
  then show ?thesis
    by (simp add: step_def stopCommand_def stopSession_fields stopSession_duration)
next
  case Unload
  then show ?thesis
    by (simp add: step_def onunload_def removeWarningOverlay_def stopSession_fields
        stopSession_duration)
qed

text \<open>The events that can end a session with a word goal.\<close>

lemma step_leaves:
  assumes "sessionActive s" and "wordCountGoal s = Some goal" and "\<not> sessionActive (step e s)"
  shows "(case e of
            TimerFires i now r \<Rightarrow>
              (case map_of (timers s) i of
                 Some (GoalCheck ed) \<Rightarrow> int (countWords (editors s ed)) - initialWordCount s \<ge> goal
               | Some IdleTimeout \<Rightarrow> True
               | _ \<Rightarrow> False)
          | ActiveLeafChange leaf \<Rightarrow> True
          | StopCommand \<Rightarrow> True
          | Unload \<Rightarrow> True
          | _ \<Rightarrow> False)"
proof (cases e)
  case (EditorChange ed content now)
  with assms show ?thesis
    by (simp add: step_def onEditorChange_def resetIdleWatchdog_keeps setValue_def)
next
  case (ViewChange view)
  with assms show ?thesis by (simp add: step_def)
next
  case (TimerFires i now r)
  show ?thesis
  proof (cases "map_of (timers s) i")
    case None
    with assms TimerFires show ?thesis by (simp add: step_def fireTimer_def)
  next
    case (Some k)
    show ?thesis
    proof (cases k)
      case (GoalCheck ed)
      with assms TimerFires Some show ?thesis
        by (auto simp: step_def fireTimer_def goalCheck_def Let_def split: if_splits)
    next
      case IdleTimeout
      with TimerFires Some show ?thesis by simp
    next
      case (WarningCheck thr)
      with assms TimerFires Some show ?thesis
        by (simp add: step_def fireTimer_def warningCheck_keeps)
    qed
  qed
qed simp_all

lemma beginSession_word_goal:
  assumes "cfg_wordCountGoal config = Some goal"
  shows "sessionActive (beginSession now f ed config s) \<and>
         wordCountGoal (beginSession now f ed config s) = Some goal \<and>
         sessionDurationMs (beginSession now f ed config s) = 0"
  using assms
  by (simp add: beginSession_def createWarningOverlay_def resetIdleWatchdog_keeps setTimer_def
      Let_def split: prod.splits)

lemma wordSession_state:
  "wordSession = noteOpen\<lparr>sessionActive := True, activeFile := Some ''a.md'',
      initialContent := js ''a b'', initialWordCount := 2, sessionStartTime := 0,
      wordCountGoal := Some 1, sessionDurationMs := 0, sessionInterval := Some 0,
      idleWatchdogTimeout := Some 1, lastActivityTime := 0, warningOverlay := Some False,
      timers := [(0, GoalCheck 0), (1, IdleTimeout), (2, WarningCheck 3000)],
      nextTimerId := 3\<rparr>"
  by (simp add: example_defs)

section \<open>Session records\<close>

text \<open>
  The record of a penalty, like that of a completion (\<open>completeSession_sessions\<close>), holds
  the word count of the editor's whole content.
\<close>

lemma triggerPenalty_sessions:
  assumes "sessionActive s" and "activeView s = Some view" and "view_file view = activeFile s"
  shows "sessions (triggerPenalty now r s) = sessions s @
           [\<lparr>timestamp = now, durationSeconds = (now - sessionStartTime s) div 1000,
             wordsWritten = int (countWords (editors s (view_editor view))),
             completed = False\<rparr>]"
  using assms
  by (simp add: triggerPenalty_def Let_def setValue_def recordSession_def stopSession_fields)

text \<open>
  When no markdown view is active, or the active one shows another file, the penalty
  trigger returns without any effect.
\<close>

lemma triggerPenalty_not_foreground:
  assumes "activeView s = None \<or> view_file (the (activeView s)) \<noteq> activeFile s"
  shows "triggerPenalty now r s = s"
  using assms by (auto simp: triggerPenalty_def split: option.splits)

text \<open>
  Claim C1. Every record written at the end of a session (penalty or goal completion)
  is to hold, as \<^verbatim>\<open>wordsWritten\<close>, the final word count of the document minus the word
  count captured at the start. The session of the running example starts on a note of
  two words; a third word is typed at 1 s. Both the goal check (at 60 s) and the idle
  penalty (the timeout set by that edit, firing at 6 s) record 3 words, the count of the
  whole document, where the claim has 1.
\<close>

theorem wordsWritten_is_whole_document_count:
  "initialWordCount wordSession = 2 \<and>
   sessions (step (TimerFires 0 60000 False) (step (EditorChange 0 (js ''a b c'') 1000) wordSession)) =
     [\<lparr>timestamp = 60000, durationSeconds = 60, wordsWritten = 3, completed = True\<rparr>] \<and>
   sessions (step (TimerFires 3 6000 False) (step (EditorChange 0 (js ''a b c'') 1000) wordSession)) =
     [\<lparr>timestamp = 6000, durationSeconds = 6, wordsWritten = 3, completed = False\<rparr>]"
  by (simp add: example_defs run_defs)

section \<open>Leaving the document\<close>

text \<open>
  Claim C2, as amended. When, during an active session, the active leaf changes to a
  markdown view of a file other than the session's file, the session ends (it is no
  longer active), no editor content is changed, and the history is left as it was: no
  record is appended.
\<close>

theorem document_switch_aborts_without_record:
  assumes "sessionActive s" and "activeFile s = Some af" and "cf \<noteq> af"
  shows "\<not> sessionActive (onActiveLeafChange (Some (Markdown (MarkdownView (Some cf) ed))) s) \<and>
         editors (onActiveLeafChange (Some (Markdown (MarkdownView (Some cf) ed))) s) = editors s \<and>
         sessions (onActiveLeafChange (Some (Markdown (MarkdownView (Some cf) ed))) s) = sessions s"
  using assms by (simp add: onActiveLeafChange_def stopSession_fields)

theorem document_switch_aborts_without_record_witness:
  "sessionActive wordSession \<and> activeFile wordSession = Some ''a.md'' \<and> ''b.md'' \<noteq> ''a.md'' \<and>
   \<not> sessionActive (onActiveLeafChange (Some (Markdown (MarkdownView (Some ''b.md'') 1))) wordSession) \<and>
   editors (onActiveLeafChange (Some (Markdown (MarkdownView (Some ''b.md'') 1))) wordSession) =
     editors wordSession \<and>
   sessions (onActiveLeafChange (Some (Markdown (MarkdownView (Some ''b.md'') 1))) wordSession) =
     sessions wordSession"
proof -
  have a: "sessionActive wordSession" by (simp add: wordSession_state)
  have b: "activeFile wordSession = Some ''a.md''" by (simp add: wordSession_state)
  have c: "''b.md'' \<noteq> ''a.md''" by simp
  from document_switch_aborts_without_record[OF a b c, of 1] a b c show ?thesis by simp
qed

text \<open>
  The claim as first stated has a record with \<^verbatim>\<open>completed = false\<close> appended on the
  switch. In the running example the user switches to \<^verbatim>\<open>b.md\<close>: the history is empty
  afterwards.
\<close>

theorem document_switch_appends_no_record:
  "sessionActive wordSession \<and> activeFile wordSession = Some ''a.md'' \<and>
   sessions (step (ActiveLeafChange (Some (Markdown (MarkdownView (Some ''b.md'') 1)))) wordSession) = []"
  by (simp add: example_defs run_defs)

text \<open>
  Claim C3. When the idle timeout fires while the session's document is not in the
  foreground, the session is to end as not completed, with its timers torn down. In the
  running example the user moves to a view that is not a markdown view, which does not
  end the session, and the idle timeout (timer 1) fires at 5 s: \<^verbatim>\<open>triggerPenalty\<close> returns
  at its guard, the session is still active, and its goal check and warning check are
  still pending; nothing is recorded and no content is changed.
\<close>

theorem triggerPenalty_leaves_session_active:
  "sessionActive (step (TimerFires 1 5000 False) (step (ActiveLeafChange (Some OtherView)) wordSession)) \<and>
   timers (step (TimerFires 1 5000 False) (step (ActiveLeafChange (Some OtherView)) wordSession)) =
     [(0, GoalCheck 0), (2, WarningCheck 3000)] \<and>
   sessionInterval (step (TimerFires 1 5000 False) (step (ActiveLeafChange (Some OtherView)) wordSession)) =
     Some 0 \<and>
   sessions (step (TimerFires 1 5000 False) (step (ActiveLeafChange (Some OtherView)) wordSession)) = [] \<and>
   editors (step (TimerFires 1 5000 False) (step (ActiveLeafChange (Some OtherView)) wordSession)) =
     editors wordSession"
  by (simp add: example_defs run_defs)

section \<open>Timers\<close>

text \<open>
  Claim C5, as amended. Stopping an active session cancels, before it returns, the
  timers whose handles the plugin holds: the goal-check interval, the idle timeout and
  the status-bar interval. Every other pending timer stays pending; the 50 ms warning
  checks are among these, since their handles live only in their own callbacks. A
  warning check that fires after the stop cancels itself.
\<close>

theorem stopSession_cancels_held_timers:
  assumes "sessionActive s"
  shows "\<not> sessionActive (stopSession c s) \<and>
         sessionInterval (stopSession c s) = None \<and>
         idleWatchdogTimeout (stopSession c s) = None \<and>
         statusBarInterval (stopSession c s) = None \<and>
         timers (stopSession c s) =
           filter (\<lambda>(j, k). Some j \<noteq> sessionInterval s \<and> Some j \<noteq> idleWatchdogTimeout s \<and>
                     Some j \<noteq> statusBarInterval s) (timers s) \<and>
         warningCheck i thr now (stopSession c s) = clearTimer i (stopSession c s)"
  using assms by (simp add: stopSession_fields stopSession_timers warningCheck_def)

theorem stopSession_cancels_held_timers_witness:
  "sessionActive wordSession \<and>
   timers wordSession = [(0, GoalCheck 0), (1, IdleTimeout), (2, WarningCheck 3000)] \<and>
   sessionInterval wordSession = Some 0 \<and> idleWatchdogTimeout wordSession = Some 1 \<and>
   \<not> sessionActive (stopSession False wordSession) \<and>
   sessionInterval (stopSession False wordSession) = None \<and>
   idleWatchdogTimeout (stopSession False wordSession) = None \<and>
   timers (warningCheck 2 3000 50 (stopSession False wordSession)) = []"
proof -
  have a: "sessionActive wordSession" by (simp add: wordSession_state)
  from stopSession_cancels_held_timers[OF a, of False 2 3000 50] a show ?thesis
    by (simp add: wordSession_state clearTimer_def)
qed

text \<open>
  The claim as first stated has no timer of the session pending when the stop returns.
  In the running example the warning check started with the session is still pending
  then.
\<close>

theorem stopSession_leaves_warning_check_pending:
  "sessionActive wordSession \<and> timers (stopSession False wordSession) = [(2, WarningCheck 3000)]"
  by (simp add: example_defs run_defs)

section \<open>Goal completion\<close>

text \<open>
  Claim C6. The goal check completes a session (appends a completed record) never
  early and only once: when a tick appends a record, the session was active, the goal
  was reached at that tick (in word-count mode the current word count minus the initial
  one is at least the goal, in duration mode the time since the start is at least the
  duration), the record is a completed one and the session is no longer active; when
  the goal is reached at a tick with the session's document in the foreground, that tick
  appends the record; and any number of ticks appends at most one record.
\<close>

theorem completion_fires_once_never_early:
  "(sessions (goalCheck ed now s) \<noteq> sessions s \<longrightarrow>
      sessionActive s \<and> \<not> sessionActive (goalCheck ed now s) \<and>
      (case wordCountGoal s of
         Some goal \<Rightarrow> int (countWords (editors s ed)) - initialWordCount s \<ge> goal
       | None \<Rightarrow> now - sessionStartTime s \<ge> sessionDurationMs s) \<and>
      (\<exists>r. sessions (goalCheck ed now s) = sessions s @ [r] \<and> completed r)) \<and>
   (sessionActive s \<and>
      (case wordCountGoal s of
         Some goal \<Rightarrow> int (countWords (editors s ed)) - initialWordCount s \<ge> goal
       | None \<Rightarrow> now - sessionStartTime s \<ge> sessionDurationMs s) \<and>
      activeView s = Some view \<and> view_file view = activeFile s \<longrightarrow>
      sessions (goalCheck ed now s) = sessions s @
        [\<lparr>timestamp = now, durationSeconds = (now - sessionStartTime s) div 1000,
          wordsWritten = int (countWords (editors s (view_editor view))), completed = True\<rparr>] \<and>
      \<not> sessionActive (goalCheck ed now s)) \<and>
   (sessions (goalChecks ticks s) = sessions s \<or>
      (\<exists>r. sessions (goalChecks ticks s) = sessions s @ [r] \<and> completed r))"
proof -
  have early: "sessionActive s \<and> \<not> sessionActive (goalCheck ed now s) \<and> goalReached ed now s \<and>
      (\<exists>r. sessions (goalCheck ed now s) = sessions s @ [r] \<and> completed r)"
    if "sessions (goalCheck ed now s) \<noteq> sessions s"
    using that
    by (auto simp: goalCheck_eq completeSession_sessions completeSession_stops split: if_splits)
  have fires: "sessions (goalCheck ed now s) = sessions s @
        [\<lparr>timestamp = now, durationSeconds = (now - sessionStartTime s) div 1000,
          wordsWritten = int (countWords (editors s (view_editor view))), completed = True\<rparr>] \<and>
      \<not> sessionActive (goalCheck ed now s)"
    if "sessionActive s" "goalReached ed now s" "activeView s = Some view"
      "view_file view = activeFile s"
    using that by (simp add: goalCheck_eq completeSession_sessions completeSession_stops)
  from early fires goalChecks_sessions[of ticks s] show ?thesis
    unfolding goalReached_def by blast
qed

theorem completion_fires_once_never_early_witness:
  "sessionActive (setValue 0 (js ''a b c'') wordSession) \<and>
   wordCountGoal (setValue 0 (js ''a b c'') wordSession) = Some 1 \<and>
   int (countWords (editors (setValue 0 (js ''a b c'') wordSession) 0)) -
     initialWordCount (setValue 0 (js ''a b c'') wordSession) \<ge> 1 \<and>
   activeView (setValue 0 (js ''a b c'') wordSession) = Some (MarkdownView (Some ''a.md'') 0) \<and>
   sessions (goalCheck 0 60000 (setValue 0 (js ''a b c'') wordSession)) \<noteq>
     sessions (setValue 0 (js ''a b c'') wordSession) \<and>
   sessions (goalCheck 0 60000 (setValue 0 (js ''a b c'') wordSession)) =
     [\<lparr>timestamp = 60000, durationSeconds = 60, wordsWritten = 3, completed = True\<rparr>] \<and>
   \<not> sessionActive (goalCheck 0 60000 (setValue 0 (js ''a b c'') wordSession)) \<and>
   sessions (goalChecks [(0, 60000), (0, 61000), (0, 62000)] (setValue 0 (js ''a b c'') wordSession)) =
     [\<lparr>timestamp = 60000, durationSeconds = 60, wordsWritten = 3, completed = True\<rparr>]"
  using completion_fires_once_never_early [of 0 60000 "setValue 0 (js ''a b c'') wordSession"
      "MarkdownView (Some ''a.md'') 0" "[(0, 60000), (0, 61000), (0, 62000)]"]
  by (simp add: example_defs run_defs)

text \<open>
  Claim C10. A session begun with a word-count goal has no time limit. Its stored
  duration is 0. While it is active with its goal, the goal check tests the word count
  only, so whether a tick ends the session does not depend on the time of the tick; an
  event after which the session is still active leaves the goal and the stored duration
  as they were; and an event after which it is no longer active is a goal check that
  found the word goal reached, the idle timeout, a change of the active leaf, the stop
  command or the unloading of the plugin.
\<close>

theorem word_goal_session_has_no_time_limit:
  "(cfg_wordCountGoal config = Some goal \<longrightarrow>
      sessionActive (beginSession now f ed config s0) \<and>
      wordCountGoal (beginSession now f ed config s0) = Some goal \<and>
      sessionDurationMs (beginSession now f ed config s0) = 0) \<and>
   (sessionActive s \<and> wordCountGoal s = Some goal \<longrightarrow>
      goalCheck ed t s =
        (if int (countWords (editors s ed)) - initialWordCount s \<ge> goal
         then completeSession t s else s) \<and>
      sessionActive (goalCheck ed t s) = sessionActive (goalCheck ed t' s) \<and>
      (sessionActive (step e s) \<longrightarrow>
         wordCountGoal (step e s) = Some goal \<and>
         sessionDurationMs (step e s) = sessionDurationMs s) \<and>
      (\<not> sessionActive (step e s) \<longrightarrow>
         (case e of
            TimerFires i tf r \<Rightarrow>
              (case map_of (timers s) i of
                 Some (GoalCheck ed') \<Rightarrow>
                   int (countWords (editors s ed')) - initialWordCount s \<ge> goal
               | Some IdleTimeout \<Rightarrow> True
               | _ \<Rightarrow> False)
          | ActiveLeafChange leaf \<Rightarrow> True
          | StopCommand \<Rightarrow> True
          | Unload \<Rightarrow> True
          | _ \<Rightarrow> False)))"
proof -
  have start: "cfg_wordCountGoal config = Some goal \<longrightarrow>
      sessionActive (beginSession now f ed config s0) \<and>
      wordCountGoal (beginSession now f ed config s0) = Some goal \<and>
      sessionDurationMs (beginSession now f ed config s0) = 0"
    using beginSession_word_goal[of config goal now f ed s0] by (rule impI)
  have run: "sessionActive s \<and> wordCountGoal s = Some goal \<longrightarrow>
      goalCheck ed t s =
        (if int (countWords (editors s ed)) - initialWordCount s \<ge> goal
         then completeSession t s else s) \<and>
      sessionActive (goalCheck ed t s) = sessionActive (goalCheck ed t' s) \<and>
      (sessionActive (step e s) \<longrightarrow>
         wordCountGoal (step e s) = Some goal \<and>
         sessionDurationMs (step e s) = sessionDurationMs s) \<and>
      (\<not> sessionActive (step e s) \<longrightarrow>
         (case e of
            TimerFires i tf r \<Rightarrow>
              (case map_of (timers s) i of
                 Some (GoalCheck ed') \<Rightarrow>
                   int (countWords (editors s ed')) - initialWordCount s \<ge> goal
               | Some IdleTimeout \<Rightarrow> True
               | _ \<Rightarrow> False)
          | ActiveLeafChange leaf \<Rightarrow> True
          | StopCommand \<Rightarrow> True
          | Unload \<Rightarrow> True
          | _ \<Rightarrow> False))"
  proof (intro impI, elim conjE)
    assume a: "sessionActive s" and g: "wordCountGoal s = Some goal"
    have tick: "goalCheck ed u s =
        (if int (countWords (editors s ed)) - initialWordCount s \<ge> goal
         then completeSession u s else s)" for u
      using g by (simp add: goalCheck_def Let_def)
    have time: "sessionActive (goalCheck ed t s) = sessionActive (goalCheck ed t' s)"
      using a by (simp add: tick completeSession_stops)
    have keeps: "sessionActive (step e s) \<longrightarrow>
         wordCountGoal (step e s) = Some goal \<and>
         sessionDurationMs (step e s) = sessionDurationMs s"
      using step_keeps[of e s] g by simp
    have leaves: "\<not> sessionActive (step e s) \<longrightarrow>
         (case e of
            TimerFires i tf r \<Rightarrow>
              (case map_of (timers s) i of
                 Some (GoalCheck ed') \<Rightarrow>
                   int (countWords (editors s ed')) - initialWordCount s \<ge> goal
               | Some IdleTimeout \<Rightarrow> True
               | _ \<Rightarrow> False)
          | ActiveLeafChange leaf \<Rightarrow> True
          | StopCommand \<Rightarrow> True
          | Unload \<Rightarrow> True
          | _ \<Rightarrow> False)"
      using step_leaves[OF a g, of e] by (rule impI)
    from tick[of t] time keeps leaves
    show "goalCheck ed t s =
        (if int (countWords (editors s ed)) - initialWordCount s \<ge> goal
         then completeSession t s else s) \<and>
      sessionActive (goalCheck ed t s) = sessionActive (goalCheck ed t' s) \<and>
      (sessionActive (step e s) \<longrightarrow>
         wordCountGoal (step e s) = Some goal \<and>
         sessionDurationMs (step e s) = sessionDurationMs s) \<and>
      (\<not> sessionActive (step e s) \<longrightarrow>
         (case e of
            TimerFires i tf r \<Rightarrow>
              (case map_of (timers s) i of
                 Some (GoalCheck ed') \<Rightarrow>
                   int (countWords (editors s ed')) - initialWordCount s \<ge> goal
               | Some IdleTimeout \<Rightarrow> True
               | _ \<Rightarrow> False)
          | ActiveLeafChange leaf \<Rightarrow> True
          | StopCommand \<Rightarrow> True
          | Unload \<Rightarrow> True
          | _ \<Rightarrow> False))"
      by (intro conjI)
  qed
  from start run show ?thesis by (rule conjI)
qed

theorem word_goal_session_has_no_time_limit_witness:
  "cfg_wordCountGoal \<lparr>cfg_durationMinutes = None, cfg_wordCountGoal = Some 1\<rparr> = Some 1 \<and>
   sessionDurationMs wordSession = 0 \<and> sessionActive wordSession \<and>
   wordCountGoal wordSession = Some 1 \<and>
   sessionActive (goalCheck 0 60000 wordSession) = sessionActive (goalCheck 0 86400000 wordSession) \<and>
   sessionActive (step (EditorChange 0 (js ''a b'') 2000) wordSession) \<and>
   wordCountGoal (step (EditorChange 0 (js ''a b'') 2000) wordSession) = Some 1 \<and>
   \<not> sessionActive (step StopCommand wordSession)"
  using word_goal_session_has_no_time_limit [of "\<lparr>cfg_durationMinutes = None, cfg_wordCountGoal = Some 1\<rparr>"
      1 0 "''a.md''" 0 noteOpen wordSession 60000 86400000 "EditorChange 0 (js ''a b'') 2000"]
    word_goal_session_has_no_time_limit [of "\<lparr>cfg_durationMinutes = None, cfg_wordCountGoal = Some 1\<rparr>"
      1 0 "''a.md''" 0 noteOpen wordSession 60000 86400000 StopCommand]
  by (simp add: example_defs run_defs)

end
